theory Spec2Isabelle
  imports Complex_Main
begin

section \<open>Arrays\<close>

text \<open>
  A 2-D numpy array (one colour plane) is a list of rows; a 3-channel image is a list of
  rows of pixels, a pixel being the triple of its channel values. \<open>uint8\<close> samples are
  naturals below 256; \<open>float32\<close>/\<open>float64\<close> samples are modelled as reals, so every
  arithmetic step below is exact (rounding of the machine formats is not modelled).
  An array without rows has no recorded width, which is taken to be 0.
\<close>

type_synonym 'a plane = "'a list list"
type_synonym 'a pixel = "'a \<times> 'a \<times> 'a"
type_synonym 'a image = "'a pixel list list"

definition ncols :: "'a list list \<Rightarrow> nat" where
  "ncols p = (case p of [] \<Rightarrow> 0 | r # _ \<Rightarrow> length r)"

definition shape2 :: "'a list list \<Rightarrow> nat \<times> nat" where
  "shape2 p = (length p, ncols p)"

definition shape3 :: "'a image \<Rightarrow> nat \<times> nat \<times> nat" where
  "shape3 img = (length img, ncols img, 3)"

definition rect :: "'a list list \<Rightarrow> bool" where
  "rect p = list_all (\<lambda>r. length r = ncols p) p"

section \<open>Colour transforms of the embedding path (embed\_backend.py)\<close>

type_synonym matrix3 = "real pixel \<times> real pixel \<times> real pixel"

definition dot3 :: "real pixel \<Rightarrow> real pixel \<Rightarrow> real" where
  "dot3 v m = (case v of (a, b, c) \<Rightarrow> case m of (x, y, z) \<Rightarrow> a * x + b * y + c * z)"

text \<open>\<open>np.dot(img, matrix.T)\<close> on one pixel: component \<open>k\<close> is the pixel times row \<open>k\<close>.\<close>

definition dot_T :: "real pixel \<Rightarrow> matrix3 \<Rightarrow> real pixel" where
  "dot_T v M = (case M of (r0, r1, r2) \<Rightarrow> (dot3 v r0, dot3 v r1, dot3 v r2))"

definition forward_matrix :: matrix3 where
  "forward_matrix = ((0.299, 0.587, 0.114),
                     (-0.168736, -0.331264, 0.5),
                     (0.5, -0.418688, -0.081312))"

definition inverse_matrix :: matrix3 where
  "inverse_matrix = ((1.0, 0.0, 1.402),
                     (1.0, -0.344136, -0.714136),
                     (1.0, 1.772, 0.0))"

definition rgb_to_ycbcr_px :: "real pixel \<Rightarrow> real pixel" where
  "rgb_to_ycbcr_px v = dot_T v forward_matrix"

definition ycbcr_to_rgb_px :: "real pixel \<Rightarrow> real pixel" where
  "ycbcr_to_rgb_px v = dot_T v inverse_matrix"

definition rgb_to_ycbcr_lossless :: "real image \<Rightarrow> real image" where
  "rgb_to_ycbcr_lossless img_bgr = map (map rgb_to_ycbcr_px) img_bgr"

definition ycbcr_to_rgb_lossless :: "real image \<Rightarrow> real image" where
  "ycbcr_to_rgb_lossless img_ycrcb = map (map ycbcr_to_rgb_px) img_ycrcb"


section \<open>Row-parity embedding (embed\_backend.py, embedd\_matrix)\<close>

text \<open>\<open>a[::2]\<close> and \<open>a[1::2]\<close>: the rows at even and at odd positions.\<close>

fun evens :: "'a list \<Rightarrow> 'a list" where
  "evens [] = []"
| "evens [x] = [x]"
| "evens (x # y # xs) = x # evens xs"

fun odds :: "'a list \<Rightarrow> 'a list" where
  "odds [] = []"
| "odds [x] = []"
| "odds (x # y # xs) = y # odds xs"

text \<open>
  \<open>COVER[::2] = Aeven; COVER[1::2] = Aodd\<close> for two arrays with the same number of rows.
  \<open>embedd_matrix\<close> below calls it in that case only.
\<close>

fun interleave :: "'a list \<Rightarrow> 'a list \<Rightarrow> 'a list" where
  "interleave (a # as) (b # bs) = a # b # interleave as bs"
| "interleave as bs = []"

text \<open>Element-wise arithmetic of numpy on two arrays of one shape, and with a scalar.\<close>

text \<open>
  numpy accepts two operands of an element-wise operation, or the two sides of a slice
  assignment, when they have one shape: for lists of rows, the same row lengths.
\<close>

definition same_shape :: "'a list list \<Rightarrow> 'b list list \<Rightarrow> bool" where
  "same_shape a b = (map length a = map length b)"

definition add2 :: "real plane \<Rightarrow> real plane \<Rightarrow> real plane" where
  "add2 a b = map2 (map2 (+)) a b"

definition sub2 :: "real plane \<Rightarrow> real plane \<Rightarrow> real plane" where
  "sub2 a b = map2 (map2 (-)) a b"

definition div_scalar :: "real plane \<Rightarrow> real \<Rightarrow> real plane" where
  "div_scalar a c = map (map (\<lambda>x. x / c)) a"

definition mul_scalar :: "real plane \<Rightarrow> real \<Rightarrow> real plane" where
  "mul_scalar a c = map (map (\<lambda>x. x * c)) a"

datatype error = ValueError | CvError

text \<open>
  OpenCV is an external library. Its two calls in \<open>embedd_matrix\<close> are parameters of the
  model: \<open>resize w (width, height)\<close> stands for \<open>cv2.resize(w, (width, height))\<close> and
  \<open>GaussianBlur w\<close> for \<open>cv2.GaussianBlur(w, (5, 5), 0)\<close>; each returns \<open>None\<close> where
  the library raises \<open>cv2.error\<close>.
\<close>

type_synonym cv_resize = "real plane \<Rightarrow> nat \<times> nat \<Rightarrow> real plane option"
type_synonym cv_blur = "real plane \<Rightarrow> real plane option"

text \<open>Lines 55 to 59: the payload after the optional resize and the blur.\<close>

definition smoothed_payload :: "cv_resize \<Rightarrow> cv_blur \<Rightarrow> real plane \<Rightarrow> real plane \<Rightarrow> real plane option" where
  "smoothed_payload resize GaussianBlur COVER WATERMARK =
     (let even = evens COVER in
      case (if shape2 even \<noteq> shape2 WATERMARK
            then resize WATERMARK (ncols even, length even)
            else Some WATERMARK) of
        None \<Rightarrow> None
      | Some W1 \<Rightarrow> GaussianBlur W1)"

text \<open>
  The arithmetic of lines 63 to 68 needs \<open>even\<close>, \<open>odd\<close> and the payload to have one
  shape. With an odd number of rows \<open>even\<close> has one row more than \<open>odd\<close>, and numpy
  raises ValueError in \<open>even + odd\<close> (five rows or more) or in one of the two slice
  assignments (one or three rows, where broadcasting lets the sum through); the model
  returns \<open>ValueError\<close> whenever the three shapes are not the same.
\<close>

definition embedd_matrix :: "cv_resize \<Rightarrow> cv_blur \<Rightarrow> real plane \<Rightarrow> real plane \<Rightarrow> real \<Rightarrow> error + real plane" where
  "embedd_matrix resize GaussianBlur COVER WATERMARK alpha =
     (let even = evens COVER; odd = odds COVER in
      case smoothed_payload resize GaussianBlur COVER WATERMARK of
        None \<Rightarrow> Inl CvError
      | Some W2 \<Rightarrow>
          (let W3 = mul_scalar W2 alpha in
           if same_shape even odd \<and> same_shape W3 even then
             (let Aeven = add2 (div_scalar (add2 even odd) 2) W3;
                  Aodd = sub2 (div_scalar (add2 even odd) 2) W3
              in Inr (interleave Aeven Aodd))
           else Inl ValueError))"

section \<open>Row-parity recovery (extract\_backend.py, recover\_watermark\_channel)\<close>

definition DBL_EPSILON :: real where
  "DBL_EPSILON = 1 / 2 ^ 52"

text \<open>
  \<open>cv2.normalize(src, None, 0, 255, cv2.NORM_MINMAX)\<close>, after OpenCV's implementation:
  with \<open>smin\<close>, \<open>smax\<close> the extreme values of \<open>src\<close>, every element \<open>x\<close> becomes
  \<open>x * scale + shift\<close>, where \<open>scale = (255 - 0) * (1 / (smax - smin))\<close> if
  \<open>smax - smin > DBL_EPSILON\<close> and \<open>scale = 0\<close> otherwise, and \<open>shift = 0 - smin * scale\<close>.
  The function is called on arrays with at least one element.
\<close>

definition normalize_minmax :: "real plane \<Rightarrow> real plane" where
  "normalize_minmax src =
     (let smin = Min (set (concat src)); smax = Max (set (concat src));
          scale = 255 * (if smax - smin > DBL_EPSILON then 1 / (smax - smin) else 0);
          shift = 0 - smin * scale
      in map (map (\<lambda>x. x * scale + shift)) src)"

text \<open>
  \<open>astype(np.uint8)\<close> on a float: the fraction is cut off (towards zero). Values
  outside 0..255 are wrapped here; the code applies the cast to values inside the
  range only (after \<open>normalize\<close>, after \<open>np.clip\<close>).
\<close>

definition astype_uint8 :: "real \<Rightarrow> nat" where
  "astype_uint8 x = nat ((if 0 \<le> x then \<lfloor>x\<rfloor> else \<lceil>x\<rceil>) mod 256)"

text \<open>
  The argument is a 2-D array, so the test of line 28 is passed. \<open>astype(np.float32)\<close> is
  the identity on the reals. A difference array without elements is outside what the
  route passes on (a decoded image has at least one pixel); the model answers \<open>None\<close>
  there, as the handler of line 62 does when OpenCV rejects an empty array. For
  \<open>alpha = 0\<close> the code divides by zero and goes on with infinities, which the model does
  not follow: it is meant for \<open>alpha \<noteq> 0\<close>.
\<close>

definition cropped :: "'a list list \<Rightarrow> 'a list list" where
  "cropped channel_data =
     (if length channel_data mod 2 \<noteq> 0 then butlast channel_data else channel_data)"

text \<open>\<open>even - odd\<close> of line 55, on the cropped array.\<close>

definition row_difference :: "real plane \<Rightarrow> real plane" where
  "row_difference channel_data = sub2 (evens (cropped channel_data)) (odds (cropped channel_data))"

definition recover_watermark_channel :: "real plane \<Rightarrow> real \<Rightarrow> nat plane option" where
  "recover_watermark_channel channel_data alpha =
     (let h = length channel_data in
      if h mod 2 \<noteq> 0 \<and> h - 1 = 0 then None
      else
        (let even = evens (cropped channel_data); odd = odds (cropped channel_data) in
         if shape2 even \<noteq> shape2 odd then None
         else
           (let wm_float = div_scalar (row_difference channel_data) (2 * alpha) in
            if concat wm_float = [] then None
            else Some (map (map astype_uint8) (normalize_minmax wm_float)))))"

definition ALPHA :: real where
  "ALPHA = 0.07"


section \<open>The embedding route (embed\_backend.py, embed\_watermark)\<close>

definition ALLOWED_COVER_DIMENSIONS :: "(nat \<times> nat \<times> nat) list" where
  "ALLOWED_COVER_DIMENSIONS = [(512, 512, 3)]"

definition ALLOWED_WATERMARK_DIMENSIONS :: "(nat \<times> nat \<times> nat) list" where
  "ALLOWED_WATERMARK_DIMENSIONS = [(32, 32, 3)]"

definition is_valid_image :: "'a image \<Rightarrow> (nat \<times> nat \<times> nat) list \<Rightarrow> bool" where
  "is_valid_image image_array allowed_dimensions = (shape3 image_array \<in> set allowed_dimensions)"

text \<open>\<open>a[:, :, k]\<close> for \<open>k = 0, 1, 2\<close>.\<close>

definition channel0 :: "'a image \<Rightarrow> 'a plane" where
  "channel0 img = map (map fst) img"

definition channel1 :: "'a image \<Rightarrow> 'a plane" where
  "channel1 img = map (map (\<lambda>p. fst (snd p))) img"

definition channel2 :: "'a image \<Rightarrow> 'a plane" where
  "channel2 img = map (map (\<lambda>p. snd (snd p))) img"

text \<open>\<open>a[:, :, 0] = Y\<close> for a plane \<open>Y\<close> with the rows and columns of \<open>a\<close>.\<close>

definition set_channel0 :: "'a image \<Rightarrow> 'a plane \<Rightarrow> 'a image" where
  "set_channel0 img Y = map2 (map2 (\<lambda>p y. (y, snd p))) img Y"

definition as_float :: "nat image \<Rightarrow> real image" where
  "as_float img = map (map (\<lambda>(a, b, c). (real a, real b, real c))) img"

text \<open>
  Lines 106 and 107: the luma/chroma array that is handed to the inverse transform.
  \<open>watermark_resized\<close> is the watermark after line 103.
\<close>

definition embedded_ycbcr :: "cv_resize \<Rightarrow> cv_blur \<Rightarrow> nat image \<Rightarrow> nat image \<Rightarrow> error + real image" where
  "embedded_ycbcr resize GaussianBlur image_np watermark_resized =
     (let ycbcr_image = rgb_to_ycbcr_lossless (as_float image_np) in
      case embedd_matrix resize GaussianBlur (channel0 ycbcr_image)
             (map (map real) (channel0 watermark_resized)) ALPHA of
        Inl e \<Rightarrow> Inl e
      | Inr Y \<Rightarrow>
          if same_shape Y ycbcr_image then Inr (set_channel0 ycbcr_image Y)
          else Inl ValueError)"

text \<open>\<open>np.clip(x, 0, 255).astype(np.uint8)\<close> on one pixel.\<close>

definition clip_uint8 :: "real \<Rightarrow> nat" where
  "clip_uint8 x = astype_uint8 (min 255 (max 0 x))"

definition clip_pixel :: "real pixel \<Rightarrow> nat pixel" where
  "clip_pixel p = (case p of (a, b, c) \<Rightarrow> (clip_uint8 a, clip_uint8 b, clip_uint8 c))"

datatype embed_failure = InvalidCover | InvalidWatermark | Raised error

text \<open>
  The route, from the two decoded RGB arrays on: \<open>Inl\<close> is a response with status 400
  (\<open>InvalidCover\<close>: "Invalid cover image dimensions.", \<open>InvalidWatermark\<close>: "Invalid
  watermark dimensions.", \<open>Raised\<close>: the handler of line 120), \<open>Inr\<close> the array that is
  sent as PNG. \<open>resize_image\<close> is \<open>cv2.resize\<close> on a 3-channel 8-bit array.
\<close>

type_synonym cv_resize_image = "nat image \<Rightarrow> nat \<times> nat \<Rightarrow> nat image option"

definition embed_watermark ::
  "cv_resize_image \<Rightarrow> cv_resize \<Rightarrow> cv_blur \<Rightarrow> nat image \<Rightarrow> nat image \<Rightarrow> embed_failure + nat image" where
  "embed_watermark resize_image resize GaussianBlur image_np watermark_np =
     (if \<not> is_valid_image image_np ALLOWED_COVER_DIMENSIONS then Inl InvalidCover
      else if \<not> is_valid_image watermark_np ALLOWED_WATERMARK_DIMENSIONS then Inl InvalidWatermark
      else
        (case resize_image watermark_np (ncols image_np, length image_np) of
           None \<Rightarrow> Inl (Raised CvError)
         | Some watermark_resized \<Rightarrow>
             (case embedded_ycbcr resize GaussianBlur image_np watermark_resized of
                Inl e \<Rightarrow> Inl (Raised e)
              | Inr ycbcr_image \<Rightarrow>
                  Inr (map (map clip_pixel) (ycbcr_to_rgb_lossless ycbcr_image)))))"


section \<open>The extraction route (extract\_backend.py, extract\_watermark)\<close>

definition EXPECTED_WATERMARK_SHAPE :: "nat \<times> nat" where
  "EXPECTED_WATERMARK_SHAPE = (32, 32)"

text \<open>\<open>cv2.merge\<close> of three planes: OpenCV raises \<open>cv2.error\<close> unless they have one size.\<close>

definition merge3 :: "'a plane \<Rightarrow> 'a plane \<Rightarrow> 'a plane \<Rightarrow> 'a image option" where
  "merge3 a b c =
     (if same_shape a b \<and> same_shape b c
      then Some (map2 (map2 (\<lambda>x yz. (x, yz))) a (map2 (map2 Pair) b c))
      else None)"

datatype extract_response =
    ColourPng "nat image"
  | GrayPng "nat plane"
  | Failed nat

text \<open>
  The route from the decoded array on (\<open>None\<close>: \<open>cv2.imdecode\<close> returned \<open>None\<close>).
  \<open>Failed n\<close> is a JSON error with status \<open>n\<close>. The library calls are parameters:
  \<open>bgr2ycrcb\<close> is \<open>COLOR_BGR2YCrCb\<close> on one pixel of a decoded image, \<open>ycrcb2bgr\<close> is
  \<open>cv2.cvtColor(_, COLOR_YCrCb2BGR)\<close> on the merged array (\<open>None\<close>: it raises
  \<open>cv2.error\<close>), \<open>resize_image\<close> is \<open>cv2.resize(_, _, interpolation=INTER_LINEAR)\<close>,
  \<open>imencode\<close> and \<open>imencode_gray\<close> give the success flag of \<open>cv2.imencode(".png", _)\<close>.
\<close>

definition extract_watermark ::
  "(nat pixel \<Rightarrow> nat pixel) \<Rightarrow> (nat image \<Rightarrow> nat image option) \<Rightarrow> cv_resize_image \<Rightarrow>
   (nat image \<Rightarrow> bool) \<Rightarrow> (nat plane \<Rightarrow> bool) \<Rightarrow> nat image option \<Rightarrow> extract_response" where
  "extract_watermark bgr2ycrcb ycrcb2bgr resize_image imencode imencode_gray decoded =
     (case decoded of
        None \<Rightarrow> Failed 400
      | Some image_bgr \<Rightarrow>
          (let image_ycrcb = map (map bgr2ycrcb) image_bgr;
               y_channel = channel0 image_ycrcb;
               cr_channel = channel1 image_ycrcb;
               cb_channel = channel2 image_ycrcb
           in case (recover_watermark_channel (map (map real) y_channel) ALPHA,
                    recover_watermark_channel (map (map real) cr_channel) ALPHA,
                    recover_watermark_channel (map (map real) cb_channel) ALPHA) of
                (Some watermark_y, Some watermark_cr, Some watermark_cb) \<Rightarrow>
                  (case merge3 watermark_y watermark_cr watermark_cb of
                     None \<Rightarrow> Failed 500
                   | Some recovered_ycrcb \<Rightarrow>
                       (case ycrcb2bgr recovered_ycrcb of
                          None \<Rightarrow>
                            (if \<not> imencode_gray watermark_y then Failed 500
                             else GrayPng watermark_y)
                        | Some recovered_bgr \<Rightarrow>
                            (case resize_image recovered_bgr
                                    (snd EXPECTED_WATERMARK_SHAPE, fst EXPECTED_WATERMARK_SHAPE) of
                               None \<Rightarrow> Failed 500
                             | Some final_watermark \<Rightarrow>
                                 (if \<not> imencode final_watermark then Failed 500
                                  else ColourPng final_watermark))))
              | _ \<Rightarrow> Failed 500))"

section \<open>The verification route (verify\_backend.py, verify\_watermarks)\<close>

text \<open>
  A Python float that may be NaN. Every comparison with NaN is false, so \<open>x >= t\<close> is
  \<open>fge x t\<close>.
\<close>

datatype fval = Num real | NaN

fun fge :: "fval \<Rightarrow> real \<Rightarrow> bool" where
  "fge (Num x) t = (t \<le> x)"
| "fge NaN t = False"

text \<open>\<open>a.flatten()\<close> of a 3-channel array, and the samples as floats.\<close>

definition flatten :: "nat image \<Rightarrow> real list" where
  "flatten img = concat (map (\<lambda>(a, b, c). [real a, real b, real c]) (concat img))"

definition mean :: "real list \<Rightarrow> real" where
  "mean xs = sum_list xs / real (length xs)"

text \<open>
  \<open>np.corrcoef(x, y)[0, 1]\<close> for two sequences of one length, after numpy's definition:
  with the covariance matrix \<open>c\<close> of \<open>np.cov\<close> (deviations from the means, divided by
  \<open>n - 1\<close>), the entry is \<open>c01 / sqrt(c00) / sqrt(c11)\<close>, clipped to \<open>[-1, 1]\<close>. When one
  of the sequences has variance zero the quotient is \<open>0 / 0\<close>, which is NaN.
\<close>

definition cov :: "real list \<Rightarrow> real list \<Rightarrow> real" where
  "cov xs ys =
     sum_list (map2 (\<lambda>x y. (x - mean xs) * (y - mean ys)) xs ys) / (real (length xs) - 1)"

definition corrcoef :: "real list \<Rightarrow> real list \<Rightarrow> fval" where
  "corrcoef xs ys =
     (if cov xs xs = 0 \<or> cov ys ys = 0 then NaN
      else Num (max (- 1) (min 1 (cov xs ys / sqrt (cov xs xs) / sqrt (cov ys ys)))))"

datatype verdict = Authentic | Tampered

record verification =
  psnr :: fval
  ssim :: fval
  correlation :: fval
  status :: verdict

datatype verify_failure = BadRequest | InternalError

definition PIXEL_MAX :: real where
  "PIXEL_MAX = 255.0"

text \<open>
  The route from the two decoded arrays on (\<open>None\<close>: \<open>cv2.imdecode\<close> returned \<open>None\<close>),
  up to the metrics and the status of the response; the PDF report is left out.
  \<open>resize_image\<close> is \<open>cv2.resize\<close>, \<open>ssim_fn\<close> is \<open>structural_similarity(_, _,
  channel_axis=-1)\<close> of scikit-image; \<open>None\<close> stands for an exception, which the handler
  of line 151 answers with status 500, as it does the ValueError of the subtraction of
  two arrays of different shapes.
\<close>

definition verify_watermarks ::
  "cv_resize_image \<Rightarrow> (nat image \<Rightarrow> nat image \<Rightarrow> fval option) \<Rightarrow>
   nat image option \<Rightarrow> nat image option \<Rightarrow> verify_failure + verification" where
  "verify_watermarks resize_image ssim_fn initial extracted =
     (case (initial, extracted) of
        (Some initial_watermark, Some extracted_decoded) \<Rightarrow>
          (case resize_image extracted_decoded (ncols initial_watermark, length initial_watermark) of
             None \<Rightarrow> Inl InternalError
           | Some extracted_watermark \<Rightarrow>
               if \<not> same_shape initial_watermark extracted_watermark then Inl InternalError
               else
                 (let diffs = map2 (\<lambda>a b. (a - b) ^ 2)
                                (flatten initial_watermark) (flatten extracted_watermark);
                      psnr_value =
                        (if diffs = [] then NaN
                         else if mean diffs = 0 then Num 999.99
                         else Num (10 * log 10 (PIXEL_MAX ^ 2 / mean diffs)))
                  in case ssim_fn initial_watermark extracted_watermark of
                       None \<Rightarrow> Inl InternalError
                     | Some ssim_value \<Rightarrow>
                         (let correlation = corrcoef (flatten initial_watermark)
                                              (flatten extracted_watermark);
                              status =
                                (if fge psnr_value 30 \<and> fge ssim_value 0.95 \<and> fge correlation 0.98
                                 then Authentic else Tampered)
                          in Inr \<lparr>psnr = psnr_value, ssim = ssim_value,
                                  correlation = correlation, status = status\<rparr>)))
      | _ \<Rightarrow> Inl BadRequest)"


section \<open>Facts about the array operations\<close>

lemmas colour_defs =
  ycbcr_to_rgb_px_def rgb_to_ycbcr_px_def dot_T_def dot3_def forward_matrix_def inverse_matrix_def

lemma ncols_replicate: "0 < n \<Longrightarrow> ncols (replicate n r) = length r"
  by (cases n) (simp_all add: ncols_def)

lemma shape3_replicate: "0 < n \<Longrightarrow> shape3 (replicate n (replicate m p)) = (n, m, 3)"
  by (simp add: shape3_def ncols_replicate)

lemma set_channel0_row:
  "length y = length r \<Longrightarrow> map snd (map2 (\<lambda>p y. (y, snd p)) r y) = map snd r
     \<and> map fst (map2 (\<lambda>p y. (y, snd p)) r y) = y"
  by (induction y r rule: list_induct2) auto

lemma set_channel0_snd:
  "same_shape Y img \<Longrightarrow> map (map snd) (set_channel0 img Y) = map (map snd) img"
  unfolding same_shape_def set_channel0_def
proof (induction img arbitrary: Y)
  case Nil
  then show ?case by simp
next
  case (Cons r img)
  then obtain y Y' where Y: "Y = y # Y'" by (cases Y) auto
  show ?case using Cons Y set_channel0_row [of y r] by auto
qed

lemma set_channel0_fst:
  "same_shape Y img \<Longrightarrow> channel0 (set_channel0 img Y) = Y"
  unfolding same_shape_def set_channel0_def channel0_def
proof (induction img arbitrary: Y)
  case Nil
  then show ?case by simp
next
  case (Cons r img)
  then obtain y Y' where Y: "Y = y # Y'" by (cases Y) auto
  show ?case using Cons Y set_channel0_row [of y r] by auto
qed

lemma channel1_via_snd: "channel1 img = map (map fst) (map (map snd) img)"
  by (simp add: channel1_def comp_def)

lemma channel2_via_snd: "channel2 img = map (map snd) (map (map snd) img)"
  by (simp add: channel2_def comp_def)

section \<open>The decision rule of the verifier\<close>



section \<open>The colour transforms are inverse only approximately\<close>

lemma roundtrip_px:
  "ycbcr_to_rgb_px (rgb_to_ycbcr_px (r, g, b)) =
     (r - 9 / 15625000 * g + 9 / 15625000 * b,
      129 / 976562500 * r + 1953125081 / 1953125000 * g - 339 / 1953125000 * b,
      - (3 / 15625000) * r + 3 / 15625000 * g + b)"
  by (simp add: colour_defs algebra_simps)

text \<open>
  Claim C4, as stated, fails: in exact arithmetic the green pixel \<open>(0, 255, 0)\<close> comes back
  with a red component of \<open>-0.00014688\<close>, a deviation far above the rounding of 64-bit
  floats, so the second matrix is not the algebraic inverse of the first.
\<close>

theorem colour_roundtrip_not_exact:
  "ycbcr_to_rgb_lossless (rgb_to_ycbcr_lossless [[(0, 255, 0)]]) =
     [[(- 0.00014688, 255.00001057536, 0.00004896)]]
   \<and> ycbcr_to_rgb_lossless (rgb_to_ycbcr_lossless [[(0, 255, 0)]]) \<noteq> [[(0, 255, 0)]]"
  by (simp add: ycbcr_to_rgb_lossless_def rgb_to_ycbcr_lossless_def colour_defs)

text \<open>
  Claim C4, amended. The two transforms are inverse up to the six decimals of their
  coefficients: every component of \<open>ycbcr_to_rgb_px (rgb_to_ycbcr_px (r, g, b))\<close> differs
  from the component it started from by at most \<open>(|r| + |g| + |b|) / 10^6\<close>.
\<close>

theorem colour_roundtrip_approximate:
  "\<bar>fst (ycbcr_to_rgb_px (rgb_to_ycbcr_px (r, g, b))) - r\<bar> \<le> (\<bar>r\<bar> + \<bar>g\<bar> + \<bar>b\<bar>) / 10 ^ 6
   \<and> \<bar>fst (snd (ycbcr_to_rgb_px (rgb_to_ycbcr_px (r, g, b)))) - g\<bar> \<le> (\<bar>r\<bar> + \<bar>g\<bar> + \<bar>b\<bar>) / 10 ^ 6
   \<and> \<bar>snd (snd (ycbcr_to_rgb_px (rgb_to_ycbcr_px (r, g, b)))) - b\<bar> \<le> (\<bar>r\<bar> + \<bar>g\<bar> + \<bar>b\<bar>) / 10 ^ 6"
  unfolding roundtrip_px by (simp add: abs_if)

section \<open>Shape validation of the embedding route\<close>

text \<open>
  Claim C6. \<open>embed_watermark\<close> answers "Invalid cover image dimensions." when the cover's
  shape is not \<open>(512, 512, 3)\<close>, and "Invalid watermark dimensions." when the cover is
  right and the watermark's shape is not \<open>(32, 32, 3)\<close>, whatever the library calls
  would do (none of them has been made); with exactly these shapes neither answer is
  given.
\<close>

theorem embed_shape_validation:
  "(shape3 image_np \<noteq> (512, 512, 3) \<longrightarrow>
      embed_watermark resize_image resize GaussianBlur image_np watermark_np = Inl InvalidCover)
   \<and> (shape3 image_np = (512, 512, 3) \<and> shape3 watermark_np \<noteq> (32, 32, 3) \<longrightarrow>
      embed_watermark resize_image resize GaussianBlur image_np watermark_np = Inl InvalidWatermark)
   \<and> (shape3 image_np = (512, 512, 3) \<and> shape3 watermark_np = (32, 32, 3) \<longrightarrow>
      embed_watermark resize_image resize GaussianBlur image_np watermark_np \<noteq> Inl InvalidCover
      \<and> embed_watermark resize_image resize GaussianBlur image_np watermark_np \<noteq> Inl InvalidWatermark)"
  by (simp add: embed_watermark_def is_valid_image_def ALLOWED_COVER_DIMENSIONS_def
      ALLOWED_WATERMARK_DIMENSIONS_def split: option.split sum.split)

theorem embed_shape_validation_witness:
  "embed_watermark (\<lambda>w s. None) (\<lambda>w s. None) (\<lambda>w. None)
      (replicate 256 (replicate 256 (0, 0, 0))) (replicate 32 (replicate 32 (0, 0, 0))) = Inl InvalidCover
   \<and> embed_watermark (\<lambda>w s. None) (\<lambda>w s. None) (\<lambda>w. None)
      (replicate 512 (replicate 512 (0, 0, 0))) (replicate 16 (replicate 16 (0, 0, 0))) = Inl InvalidWatermark
   \<and> embed_watermark (\<lambda>w s. None) (\<lambda>w s. None) (\<lambda>w. None)
      (replicate 512 (replicate 512 (0, 0, 0))) (replicate 32 (replicate 32 (0, 0, 0))) \<noteq> Inl InvalidCover
   \<and> embed_watermark (\<lambda>w s. None) (\<lambda>w s. None) (\<lambda>w. None)
      (replicate 512 (replicate 512 (0, 0, 0))) (replicate 32 (replicate 32 (0, 0, 0))) \<noteq> Inl InvalidWatermark"
  using embed_shape_validation [of "replicate 256 (replicate 256 (0, 0, 0))"
      "\<lambda>w s. None" "\<lambda>w s. None" "\<lambda>w. None" "replicate 32 (replicate 32 (0, 0, 0))"]
    embed_shape_validation [of "replicate 512 (replicate 512 (0, 0, 0))"
      "\<lambda>w s. None" "\<lambda>w s. None" "\<lambda>w. None" "replicate 16 (replicate 16 (0, 0, 0))"]
    embed_shape_validation [of "replicate 512 (replicate 512 (0, 0, 0))"
      "\<lambda>w s. None" "\<lambda>w s. None" "\<lambda>w. None" "replicate 32 (replicate 32 (0, 0, 0))"]
  by (simp add: shape3_replicate)

section \<open>Embedding touches the luma plane only\<close>

text \<open>What the route sends is the clipped inverse transform of \<open>embedded_ycbcr\<close>.\<close>

lemma embed_watermark_uses_embedded_ycbcr:
  assumes "embed_watermark resize_image resize GaussianBlur image_np watermark_np = Inr out"
  shows "\<exists>watermark_resized ycbcr.
           resize_image watermark_np (ncols image_np, length image_np) = Some watermark_resized
         \<and> embedded_ycbcr resize GaussianBlur image_np watermark_resized = Inr ycbcr
         \<and> out = map (map clip_pixel) (ycbcr_to_rgb_lossless ycbcr)"
  using assms by (auto simp: embed_watermark_def split: if_splits option.splits sum.splits)

text \<open>
  Claim C8. In the array that \<open>embed_watermark\<close> hands to the inverse colour transform,
  channels 1 and 2 are those of the forward transform of the cover, unchanged; channel 0
  is the plane that \<open>embedd_matrix\<close> returned for the forward transform's channel 0.
\<close>

theorem embed_chroma_untouched:
  assumes "embedded_ycbcr resize GaussianBlur image_np watermark_resized = Inr ycbcr"
  shows "channel1 ycbcr = channel1 (rgb_to_ycbcr_lossless (as_float image_np))
       \<and> channel2 ycbcr = channel2 (rgb_to_ycbcr_lossless (as_float image_np))
       \<and> embedd_matrix resize GaussianBlur (channel0 (rgb_to_ycbcr_lossless (as_float image_np)))
            (map (map real) (channel0 watermark_resized)) ALPHA = Inr (channel0 ycbcr)"
proof -
  let ?img = "rgb_to_ycbcr_lossless (as_float image_np)"
  from assms obtain Y where
    Y: "embedd_matrix resize GaussianBlur (channel0 ?img)
          (map (map real) (channel0 watermark_resized)) ALPHA = Inr Y"
    and sh: "same_shape Y ?img" and y: "ycbcr = set_channel0 ?img Y"
    by (auto simp: embedded_ycbcr_def Let_def split: sum.splits if_splits)
  from sh have "map (map snd) ycbcr = map (map snd) ?img"
    unfolding y by (rule set_channel0_snd)
  moreover from sh have "channel0 ycbcr = Y"
    unfolding y by (rule set_channel0_fst)
  ultimately show ?thesis
    using Y by (simp add: channel1_via_snd channel2_via_snd)
qed

theorem embed_chroma_untouched_witness:
  "\<exists>ycbcr.
     embedded_ycbcr (\<lambda>w s. Some [[100, 200]]) Some
       [[(10, 20, 30), (40, 50, 60)], [(70, 80, 90), (0, 255, 0)]]
       [[(100, 0, 0), (200, 0, 0)], [(1, 1, 1), (2, 2, 2)]] = Inr ycbcr
     \<and> channel1 ycbcr = channel1 (rgb_to_ycbcr_lossless
         (as_float [[(10, 20, 30), (40, 50, 60)], [(70, 80, 90), (0, 255, 0)]]))
     \<and> channel2 ycbcr = channel2 (rgb_to_ycbcr_lossless
         (as_float [[(10, 20, 30), (40, 50, 60)], [(70, 80, 90), (0, 255, 0)]]))"
proof -
  have h: "embedded_ycbcr (\<lambda>w s. Some [[100, 200]]) Some
       [[(10, 20, 30), (40, 50, 60)], [(70, 80, 90), (0, 255, 0)]]
       [[(100, 0, 0), (200, 0, 0)], [(1, 1, 1), (2, 2, 2)]] =
     Inr [[(1103 / 20, 20898 / 3125, - (18166 / 3125)),
           (45167 / 400, 20898 / 3125, - (18166 / 3125))],
          [(823 / 20, 20898 / 3125, - (18166 / 3125)),
           (33967 / 400, - (263976 / 3125), - (333642 / 3125))]]"
    by (simp add: embedded_ycbcr_def embedd_matrix_def smoothed_payload_def shape2_def
        ncols_def same_shape_def rgb_to_ycbcr_lossless_def as_float_def rgb_to_ycbcr_px_def
        dot_T_def dot3_def forward_matrix_def channel0_def add2_def sub2_def mul_scalar_def
        div_scalar_def ALPHA_def set_channel0_def)
  show ?thesis
    using embed_chroma_untouched [OF h] h by simp
qed

section \<open>Facts about rows at even and odd positions\<close>

lemma length_evens: "length (evens xs) = (length xs + 1) div 2"
  by (induction xs rule: evens.induct) auto

lemma length_odds: "length (odds xs) = length xs div 2"
  by (induction xs rule: odds.induct) auto



lemma map_evens: "map f (evens xs) = evens (map f xs)"
  by (induction xs rule: evens.induct) auto

lemma map_odds: "map f (odds xs) = odds (map f xs)"
  by (induction xs rule: odds.induct) auto






lemma same_shape_length: "same_shape a b \<Longrightarrow> length a = length b"
  unfolding same_shape_def by (rule map_eq_imp_length_eq)


lemma same_shape_sym: "same_shape a b \<Longrightarrow> same_shape b a"
  by (simp add: same_shape_def)


lemma same_shape_map2: "same_shape a b \<Longrightarrow> same_shape (map2 (map2 f) a b) a"
  unfolding same_shape_def
proof (induction a arbitrary: b)
  case Nil then show ?case by simp
next
  case (Cons r a)
  then obtain q b' where "b = q # b'" by (cases b) auto
  with Cons show ?case by auto
qed

lemma same_shape_map: "same_shape (map (map f) a) a"
  by (simp add: same_shape_def comp_def)



section \<open>Row pairs of an embedded plane\<close>


lemma same_shape_sub2: "same_shape a b \<Longrightarrow> same_shape (sub2 a b) a"
  unfolding sub2_def by (rule same_shape_map2)

lemma same_shape_div_scalar: "same_shape (div_scalar a c) a"
  unfolding div_scalar_def by (rule same_shape_map)

lemma same_shape_mul_scalar: "same_shape (mul_scalar a c) a"
  unfolding mul_scalar_def by (rule same_shape_map)





lemma rect_iff: "rect p \<longleftrightarrow> (\<forall>r \<in> set p. length r = ncols p)"
  by (simp add: rect_def list_all_iff)

lemma rect_map_length: "rect p \<Longrightarrow> map length p = replicate (length p) (ncols p)"
  by (simp add: rect_iff map_replicate_const [symmetric])

lemma set_evens: "set (evens xs) \<subseteq> set xs"
  by (induction xs rule: evens.induct) auto

lemma set_odds: "set (odds xs) \<subseteq> set xs"
  by (induction xs rule: odds.induct) auto

lemma ncols_evens: "ncols (evens xs) = ncols xs"
  by (induction xs rule: evens.induct) (simp_all add: ncols_def)

lemma ncols_odds: "rect xs \<Longrightarrow> 2 \<le> length xs \<Longrightarrow> ncols (odds xs) = ncols xs"
  by (induction xs rule: odds.induct) (simp_all add: ncols_def rect_def)

lemma rect_evens: "rect xs \<Longrightarrow> rect (evens xs)"
  using set_evens [of xs] by (auto simp: rect_iff ncols_evens)

lemma rect_odds: "rect xs \<Longrightarrow> rect (odds xs)"
proof (cases "2 \<le> length xs")
  case True
  assume "rect xs"
  with True set_odds [of xs] show ?thesis by (auto simp: rect_iff ncols_odds)
next
  case False
  then have "odds xs = []" by (cases xs rule: odds.cases) auto
  then show ?thesis by (simp add: rect_def)
qed

lemma rect_same_shape:
  "rect a \<Longrightarrow> rect b \<Longrightarrow> shape2 a = shape2 b \<Longrightarrow> same_shape a b"
  by (simp add: same_shape_def rect_map_length shape2_def)

lemma even_rect_same_shape:
  assumes "even (length xs)" "rect xs"
  shows "same_shape (evens xs) (odds xs)"
proof (cases "xs = []")
  case True
  then show ?thesis by (simp add: same_shape_def)
next
  case False
  with assms(1) have "2 \<le> length xs" by (cases xs rule: odds.cases) auto
  with assms show ?thesis
    by (intro rect_same_shape rect_evens rect_odds)
       (auto simp: shape2_def length_evens length_odds ncols_evens ncols_odds)
qed

lemma embedd_matrix_returns:
  assumes "even (length COVER)" and "rect COVER"
    and "smoothed_payload resize GaussianBlur COVER WATERMARK = Some P"
    and "rect P" and "shape2 P = shape2 (evens COVER)"
  shows "\<exists>out. embedd_matrix resize GaussianBlur COVER WATERMARK alpha = Inr out"
proof -
  have eo: "same_shape (evens COVER) (odds COVER)"
    using assms(1,2) by (rule even_rect_same_shape)
  have "same_shape P (evens COVER)"
    using assms(4) rect_evens [OF assms(2)] assms(5) by (rule rect_same_shape)
  then have "same_shape (mul_scalar P alpha) (evens COVER)"
    using same_shape_mul_scalar [of P alpha] by (simp add: same_shape_def)
  with eo assms(3) show ?thesis by (simp add: embedd_matrix_def Let_def)
qed

section \<open>Recovery from an embedded plane\<close>

lemma same_shape_shape2: "same_shape a b \<Longrightarrow> shape2 a = shape2 b"
  unfolding same_shape_def shape2_def ncols_def
  by (cases a; cases b) (auto dest: map_eq_imp_length_eq)






section \<open>Min-max normalisation\<close>

lemma concat_map_map: "concat (map (map f) p) = map f (concat p)"
  by (simp add: map_concat)












section \<open>Recovery does not depend on alpha\<close>




section \<open>Degenerate normalisation\<close>

lemma cropped_even: "even (length (cropped p))"
  by (cases "p = []") (auto simp: cropped_def)

lemma ncols_butlast: "2 \<le> length p \<Longrightarrow> ncols (butlast p) = ncols p"
  by (cases p rule: odds.cases) (simp_all add: ncols_def)

lemma rect_cropped: "rect p \<Longrightarrow> rect (cropped p)"
proof (cases "2 \<le> length p")
  case True
  assume "rect p"
  with True show ?thesis
    by (auto simp: cropped_def rect_iff ncols_butlast dest: in_set_butlastD)
next
  case False
  assume "rect p"
  moreover from False have "butlast p = []" by (cases p rule: odds.cases) auto
  ultimately show ?thesis by (simp add: cropped_def rect_def)
qed

lemma length_cropped: "length (cropped p) = 2 * (length p div 2)"
  by (auto simp: cropped_def) presburger+

lemma ncols_cropped: "2 \<le> length p \<Longrightarrow> ncols (cropped p) = ncols p"
  by (simp add: cropped_def ncols_butlast)

lemma cropped_shapes:
  assumes "rect p"
  shows "same_shape (evens (cropped p)) (odds (cropped p))"
  using cropped_even rect_cropped [OF assms] by (rule even_rect_same_shape)

text \<open>Shape of the row difference of a rectangular array.\<close>

lemma row_difference_shape:
  assumes "rect p" and "2 \<le> length p"
  shows "length (row_difference p) = length p div 2"
    and "\<forall>r \<in> set (row_difference p). length r = ncols p"
proof -
  let ?e = "evens (cropped p)" and ?o = "odds (cropped p)"
  have s: "same_shape (row_difference p) ?e"
    unfolding row_difference_def using cropped_shapes [OF assms(1)] by (rule same_shape_sub2)
  have re: "rect ?e" using rect_cropped [OF assms(1)] by (rule rect_evens)
  have nc: "ncols ?e = ncols p" using assms(2) by (simp add: ncols_evens ncols_cropped)
  have ml: "map length (row_difference p) = replicate (length ?e) (ncols p)"
    using s rect_map_length [OF re] nc by (simp add: same_shape_def)
  have le: "length ?e = length p div 2"
    by (simp add: length_evens length_cropped)
  show "length (row_difference p) = length p div 2"
    using same_shape_length [OF s] le by simp
  show "\<forall>r \<in> set (row_difference p). length r = ncols p"
  proof
    fix r assume "r \<in> set (row_difference p)"
    then have "length r \<in> set (map length (row_difference p))" by simp
    then show "length r = ncols p" unfolding ml by simp
  qed
qed

text \<open>
  Claim C7, as stated, fails in its last part. A plane with identical even and odd rows
  is recovered without failure as a plane of 8-bit samples, but every sample is 0
  (black), not a mid-gray value.
\<close>

theorem recover_constant_is_black:
  "recover_watermark_channel [[5, 5], [5, 5]] ALPHA = Some [[0, 0]]
   \<and> recover_watermark_channel [[5, 5], [5, 5]] ALPHA \<noteq> Some [[127, 127]]
   \<and> recover_watermark_channel [[5, 5], [5, 5]] ALPHA \<noteq> Some [[128, 128]]"
  by (simp add: recover_watermark_channel_def cropped_def row_difference_def shape2_def ncols_def
      sub2_def div_scalar_def normalize_minmax_def astype_uint8_def DBL_EPSILON_def ALPHA_def)

text \<open>
  Claim C7, amended. When the row difference of a rectangular plane with at least two
  rows is constant, recovery (with \<open>alpha \<noteq> 0\<close>) returns a plane of the shape of the
  row difference whose every sample is 0.
\<close>

theorem recover_constant_difference:
  assumes "rect ch" and "2 \<le> length ch"
    and "set (concat (row_difference ch)) = {c}"
    and "alpha \<noteq> 0"
  shows "recover_watermark_channel ch alpha = Some (map (map (\<lambda>x. 0)) (row_difference ch))"
proof -
  let ?D = "row_difference ch" and ?k = "2 * alpha"
  have g1: "\<not> (length ch mod 2 \<noteq> 0 \<and> length ch - 1 = 0)" using assms(2) by simp
  have g2: "shape2 (evens (cropped ch)) = shape2 (odds (cropped ch))"
    using cropped_shapes [OF assms(1)] by (rule same_shape_shape2)
  have S: "set (concat (div_scalar ?D ?k)) = {c / ?k}"
    using assms(3) by (simp add: div_scalar_def concat_map_map)
  have g3: "concat (div_scalar ?D ?k) \<noteq> []"
  proof
    assume "concat (div_scalar ?D ?k) = []"
    then have "set (concat (div_scalar ?D ?k)) = set []" by (rule arg_cong)
    with S show False by simp
  qed
  have "normalize_minmax (div_scalar ?D ?k) = map (map (\<lambda>x. 0)) ?D"
    unfolding normalize_minmax_def S
    by (simp add: DBL_EPSILON_def div_scalar_def comp_def)
  then show ?thesis
    using g1 g2 g3 by (simp add: recover_watermark_channel_def Let_def astype_uint8_def comp_def)
qed

theorem recover_constant_difference_witness:
  "recover_watermark_channel [[5, 9], [2, 6]] 0.07
     = Some (map (map (\<lambda>x. 0)) (row_difference [[5, 9], [2, 6]]))"
proof -
  have "set (concat (row_difference [[5, 9], [2, 6::real]])) = {3}"
    by (simp add: row_difference_def cropped_def sub2_def)
  then show ?thesis
    using recover_constant_difference [of "[[5, 9], [2, 6]]" 3 "0.07"]
    by (simp add: rect_def ncols_def)
qed

section \<open>Shapes in the extraction route\<close>

lemma ncols_map_map: "ncols (map (map f) p) = ncols p"
  by (cases p) (simp_all add: ncols_def)

lemma rect_map_map: "rect (map (map f) p) = rect p"
  by (simp add: rect_iff ncols_map_map)

lemma rows_replicate:
  assumes "\<forall>r \<in> set p. length r = w"
  shows "map length p = replicate (length p) w"
  using assms by (intro replicate_eqI) auto

lemma recover_None_short: "length ch < 2 \<Longrightarrow> recover_watermark_channel ch alpha = None"
proof -
  assume "length ch < 2"
  then consider "ch = []" | r where "ch = [r]"
    by (cases ch rule: odds.cases) auto
  then show ?thesis
    by cases (simp_all add: recover_watermark_channel_def cropped_def row_difference_def
        sub2_def div_scalar_def shape2_def)
qed

text \<open>A plane recovered from a rectangular array has half its rows and all its columns.\<close>

lemma recover_Some_shape:
  assumes "rect ch" and "recover_watermark_channel ch alpha = Some w"
  shows "length w = length ch div 2" and "\<forall>r \<in> set w. length r = ncols ch"
    and "concat w \<noteq> []"
proof -
  have two: "2 \<le> length ch"
    using assms(2) recover_None_short [of ch alpha] by (cases "length ch < 2") auto
  let ?wm = "div_scalar (row_difference ch) (2 * alpha)"
  from assms(2) have ne: "concat ?wm \<noteq> []"
    and w: "w = map (map astype_uint8) (normalize_minmax ?wm)"
    by (auto simp: recover_watermark_channel_def Let_def split: if_splits)
  have nm: "same_shape (normalize_minmax ?wm) ?wm"
    unfolding normalize_minmax_def Let_def by (rule same_shape_map)
  have "same_shape w (normalize_minmax ?wm)" unfolding w by (rule same_shape_map)
  then have s: "same_shape w (row_difference ch)"
    using nm same_shape_div_scalar [of "row_difference ch" "2 * alpha"]
    by (simp add: same_shape_def)
  have ml: "map length w = replicate (length ch div 2) (ncols ch)"
    using s rows_replicate [OF row_difference_shape(2) [OF assms(1) two]]
      row_difference_shape(1) [OF assms(1) two]
    by (simp add: same_shape_def)
  from arg_cong [OF ml, of length] show "length w = length ch div 2" by simp
  show "\<forall>r \<in> set w. length r = ncols ch"
  proof
    fix r assume "r \<in> set w"
    then have "length r \<in> set (map length w)" by simp
    then show "length r = ncols ch" unfolding ml by simp
  qed
  show "concat w \<noteq> []"
    using ne by (simp add: w normalize_minmax_def Let_def div_scalar_def concat_map_map)
qed

lemma nonempty_rows:
  assumes "concat w \<noteq> []" and "\<forall>r \<in> set w. length r = n"
  shows "0 < length w" and "0 < n"
proof -
  from assms(1) obtain r where r: "r \<in> set w" "r \<noteq> []" by auto
  then show "0 < length w" by (cases w) auto
  from r assms(2) show "0 < n" by auto
qed

lemma rows_of_replicate:
  assumes "map length p = replicate h w"
  shows "\<forall>r \<in> set p. length r = w"
proof
  fix r assume "r \<in> set p"
  then have "length r \<in> set (map length p)" by simp
  then show "length r = w" unfolding assms by simp
qed

lemma merge3_Some:
  assumes "map length a = replicate h w" and "map length b = replicate h w"
    and "map length c = replicate h w" and "0 < h" and "0 < w"
  shows "\<exists>m. merge3 a b c = Some m \<and> rect m \<and> concat m \<noteq> [] \<and> shape3 m = (h, w, 3)"
proof -
  let ?bc = "map2 (map2 Pair) b c"
  let ?m = "map2 (map2 (\<lambda>x yz. (x, yz))) a ?bc"
  have ab: "same_shape a b" and bc: "same_shape b c"
    using assms(1-3) by (simp_all add: same_shape_def)
  have "same_shape ?bc b" using bc by (rule same_shape_map2)
  then have abc: "same_shape a ?bc" using ab by (simp add: same_shape_def)
  have "same_shape ?m a" using abc by (rule same_shape_map2)
  then have ml: "map length ?m = replicate h w" using assms(1) by (simp add: same_shape_def)
  from arg_cong [OF ml, of length] have len: "length ?m = h" by simp
  with assms(4) obtain r m' where m: "?m = r # m'" by (cases ?m) auto
  have rows: "\<forall>q \<in> set ?m. length q = w"
    using ml by (rule rows_of_replicate)
  then have r: "length r = w" unfolding m by simp
  then have nc: "ncols ?m = w" unfolding m by (simp add: ncols_def)
  have "rect ?m" using rows nc by (simp add: rect_iff)
  moreover have "concat ?m \<noteq> []" using r assms(5) unfolding m by auto
  moreover have "shape3 ?m = (h, w, 3)" using len nc by (simp add: shape3_def)
  moreover have "merge3 a b c = Some ?m" using ab bc by (simp add: merge3_def)
  ultimately show ?thesis by blast
qed

text \<open>
  Claim C10. For a decoded 3-channel array (rectangular, with at least one pixel) of
  \<open>H\<close> rows and \<open>W\<close> columns, every plane that \<open>recover_watermark_channel\<close> returns for one of the three channels
  has \<open>H div 2\<close> rows and \<open>W\<close> columns, so the merge gets three planes of one shape.
  Given that OpenCV converts every non-empty 3-channel 8-bit array without raising, and
  that a resize to \<open>(32, 32)\<close> returns an array of that size, the route never answers
  with the grayscale plane, and a colour answer has shape \<open>(32, 32, 3)\<close>.
\<close>

theorem extract_never_grayscale:
  assumes arr: "rect image_bgr" and px: "concat image_bgr \<noteq> []"
    and cvt: "\<forall>img. rect img \<and> concat img \<noteq> [] \<longrightarrow> ycrcb2bgr img \<noteq> None"
    and rsz: "\<forall>img out. resize_image img (32, 32) = Some out \<longrightarrow> shape3 out = (32, 32, 3)"
  shows "(\<forall>w. recover_watermark_channel
                 (map (map real) (channel0 (map (map bgr2ycrcb) image_bgr))) ALPHA = Some w
              \<or> recover_watermark_channel
                 (map (map real) (channel1 (map (map bgr2ycrcb) image_bgr))) ALPHA = Some w
              \<or> recover_watermark_channel
                 (map (map real) (channel2 (map (map bgr2ycrcb) image_bgr))) ALPHA = Some w
              \<longrightarrow> map length w = replicate (length image_bgr div 2) (ncols image_bgr))
       \<and> (\<forall>g. extract_watermark bgr2ycrcb ycrcb2bgr resize_image imencode imencode_gray
                 (Some image_bgr) \<noteq> GrayPng g)
       \<and> (\<forall>out. extract_watermark bgr2ycrcb ycrcb2bgr resize_image imencode imencode_gray
                 (Some image_bgr) = ColourPng out \<longrightarrow> shape3 out = (32, 32, 3))"
proof -
  let ?img = "map (map bgr2ycrcb) image_bgr"
  let ?y = "map (map real) (channel0 ?img)"
  let ?cr = "map (map real) (channel1 ?img)"
  let ?cb = "map (map real) (channel2 ?img)"
  let ?h = "length image_bgr div 2" and ?w = "ncols image_bgr"
  have planes: "rect ?y" "rect ?cr" "rect ?cb"
    "length ?y = length image_bgr" "length ?cr = length image_bgr" "length ?cb = length image_bgr"
    "ncols ?y = ?w" "ncols ?cr = ?w" "ncols ?cb = ?w"
    using arr by (simp_all add: channel0_def channel1_def channel2_def rect_map_map ncols_map_map)
  have shape: "map length w = replicate ?h ?w \<and> 0 < ?h \<and> 0 < ?w"
    if "rect p" "length p = length image_bgr" "ncols p = ?w"
      "recover_watermark_channel p ALPHA = Some w" for p w
  proof -
    note s = recover_Some_shape [OF that(1,4)]
    from rows_replicate [OF s(2)] s(1) that(2,3)
    have "map length w = replicate ?h ?w" by simp
    moreover from nonempty_rows [OF s(3) s(2)] s(1) that(2,3) have "0 < ?h" "0 < ?w" by simp_all
    ultimately show ?thesis by simp
  qed
  have first: "\<forall>w. recover_watermark_channel ?y ALPHA = Some w
              \<or> recover_watermark_channel ?cr ALPHA = Some w
              \<or> recover_watermark_channel ?cb ALPHA = Some w
              \<longrightarrow> map length w = replicate ?h ?w"
    using shape planes by blast
  let ?res = "extract_watermark bgr2ycrcb ycrcb2bgr resize_image imencode imencode_gray (Some image_bgr)"
  have rest: "(\<forall>g. ?res \<noteq> GrayPng g) \<and> (\<forall>out. ?res = ColourPng out \<longrightarrow> shape3 out = (32, 32, 3))"
  proof (cases "\<exists>wy wcr wcb. recover_watermark_channel ?y ALPHA = Some wy
        \<and> recover_watermark_channel ?cr ALPHA = Some wcr
        \<and> recover_watermark_channel ?cb ALPHA = Some wcb")
    case False
    then have "?res = Failed 500"
      by (auto simp: extract_watermark_def Let_def split: option.splits)
    then show ?thesis by simp
  next
    case True
    then obtain wy wcr wcb where rec: "recover_watermark_channel ?y ALPHA = Some wy"
      "recover_watermark_channel ?cr ALPHA = Some wcr"
      "recover_watermark_channel ?cb ALPHA = Some wcb" by blast
    have sy: "map length wy = replicate ?h ?w" "0 < ?h" "0 < ?w"
      using shape [OF planes(1,4,7) rec(1)] by simp_all
    have scr: "map length wcr = replicate ?h ?w" using shape [OF planes(2,5,8) rec(2)] by simp
    have scb: "map length wcb = replicate ?h ?w" using shape [OF planes(3,6,9) rec(3)] by simp
    from merge3_Some [OF sy(1) scr scb sy(2,3)] obtain m where
      m: "merge3 wy wcr wcb = Some m" "rect m" "concat m \<noteq> []" by blast
    with cvt obtain bgr where bgr: "ycrcb2bgr m = Some bgr" by auto
    have res: "?res = (case resize_image bgr (32, 32) of
                         None \<Rightarrow> Failed 500
                       | Some final_watermark \<Rightarrow>
                           if \<not> imencode final_watermark then Failed 500
                           else ColourPng final_watermark)"
      using rec m(1) bgr by (simp add: extract_watermark_def Let_def EXPECTED_WATERMARK_SHAPE_def)
    show ?thesis unfolding res using rsz by (auto split: option.splits)
  qed
  from first rest show ?thesis by blast
qed


theorem extract_never_grayscale_witness:
  "extract_watermark (\<lambda>p. p) Some (\<lambda>img s. Some (replicate (snd s) (replicate (fst s) (0, 0, 0))))
      (\<lambda>img. True) (\<lambda>g. True) (Some [[(0, 10, 0), (0, 0, 0)], [(0, 0, 5), (1, 2, 3)]])
     = ColourPng (replicate 32 (replicate 32 (0, 0, 0)))
   \<and> extract_watermark (\<lambda>p. p) Some (\<lambda>img s. Some (replicate (snd s) (replicate (fst s) (0, 0, 0))))
      (\<lambda>img. True) (\<lambda>g. True) (Some [[(0, 10, 0), (0, 0, 0)], [(0, 0, 5), (1, 2, 3)]])
     \<noteq> GrayPng [[0, 0]]
   \<and> shape3 (replicate 32 (replicate 32 (0::nat, 0::nat, 0::nat))) = (32, 32, 3)"
proof -
  have h: "extract_watermark (\<lambda>p. p) Some
      (\<lambda>img s. Some (replicate (snd s) (replicate (fst s) (0, 0, 0))))
      (\<lambda>img. True) (\<lambda>g. True) (Some [[(0, 10, 0), (0, 0, 0)], [(0, 0, 5), (1, 2, 3)]])
     = ColourPng (replicate 32 (replicate 32 (0, 0, 0)))"
    by (simp add: extract_watermark_def channel0_def channel1_def channel2_def
        recover_watermark_channel_def cropped_def row_difference_def shape2_def ncols_def
        sub2_def div_scalar_def normalize_minmax_def astype_uint8_def DBL_EPSILON_def ALPHA_def
        merge3_def same_shape_def EXPECTED_WATERMARK_SHAPE_def)
  have a: "rect [[(0, 10, 0), (0, 0, 0)], [(0, 0, 5), (1, 2, 3::nat)]]"
    by (simp add: rect_def ncols_def)
  have b: "concat [[(0, 10, 0), (0, 0, 0)], [(0, 0, 5), (1, 2, 3::nat)]] \<noteq> []"
    by simp
  show ?thesis
    using h extract_never_grayscale [where image_bgr = "[[(0, 10, 0), (0, 0, 0)], [(0, 0, 5), (1, 2, 3)]]"
        and ycrcb2bgr = Some
        and resize_image = "\<lambda>img s. Some (replicate (snd s) (replicate (fst s) (0, 0, 0)))"
        and bgr2ycrcb = "\<lambda>p. p" and imencode = "\<lambda>img. True" and imencode_gray = "\<lambda>g. True", OF a b]
    by (simp add: shape3_replicate)
qed

section \<open>Verification of an image against itself\<close>

lemma sum_list_zero: "(\<forall>x \<in> set l. x = (0::real)) \<Longrightarrow> sum_list l = 0"
  by (induction l) auto

lemma map2_same: "map2 f xs xs = map (\<lambda>x. f x x) xs"
  by (simp add: zip_same_conv_map)

lemma sum_list_constant: "set xs \<subseteq> {c} \<Longrightarrow> sum_list xs = real (length xs) * (c::real)"
  by (induction xs) (auto simp: algebra_simps)

lemma mean_constant: "xs \<noteq> [] \<Longrightarrow> set xs \<subseteq> {c} \<Longrightarrow> mean xs = c"
  by (simp add: mean_def sum_list_constant)

lemma cov_constant:
  assumes "set xs \<subseteq> {c}"
  shows "cov xs xs = 0"
proof (cases "xs = []")
  case True
  then show ?thesis by (simp add: cov_def)
next
  case False
  then have m: "mean xs = c" using assms by (rule mean_constant)
  have "sum_list (map (\<lambda>x. (x - c) * (x - c)) xs) = 0"
    using assms by (intro sum_list_zero) auto
  then show ?thesis by (simp add: cov_def map2_same m)
qed

text \<open>The correlation of a sequence whose samples are all equal is NaN.\<close>

lemma corrcoef_constant: "set xs \<subseteq> {c} \<Longrightarrow> corrcoef xs ys = NaN"
  by (simp add: corrcoef_def cov_constant)

lemma squared_differences_same:
  "xs \<noteq> [] \<Longrightarrow> map2 (\<lambda>a b. (a - b) ^ 2) xs xs \<noteq> [] \<and> mean (map2 (\<lambda>a b. (a - b) ^ 2) xs xs) = (0::real)"
  by (simp add: map2_same mean_def sum_list_zero)

text \<open>
  Verification of a uniform image (every sample of every channel the same) against
  itself: the PSNR is the sentinel, the correlation is NaN, the status is \<open>Tampered\<close>.
\<close>

lemma verify_uniform_identical:
  assumes "set (flatten img) \<subseteq> {c}" and "flatten img \<noteq> []"
    and "resize_image img (ncols img, length img) = Some img"
    and "ssim_fn img img = Some s"
  shows "verify_watermarks resize_image ssim_fn (Some img) (Some img)
           = Inr \<lparr>psnr = Num 999.99, ssim = s, correlation = NaN, status = Tampered\<rparr>"
  using assms squared_differences_same [OF assms(2)] corrcoef_constant [OF assms(1)]
  by (simp add: verify_watermarks_def Let_def same_shape_def)

lemma flatten_replicate:
  "set (flatten (replicate h (replicate w (c, c, c)))) \<subseteq> {real c}"
  by (auto simp: flatten_def)

text \<open>
  Claim C5 is not met by the code for uniform images. For the all-black 32 by 32 image
  compared with itself, with an SSIM of 1, the route reports \<open>psnr = 999.99\<close>, a NaN
  correlation and the status \<open>Tampered\<close>, where the claim says \<open>Authentic\<close>.
\<close>

theorem verify_identical_black_tampered:
  "verify_watermarks (\<lambda>w s. Some w) (\<lambda>a b. Some (Num 1))
     (Some (replicate 32 (replicate 32 (0, 0, 0)))) (Some (replicate 32 (replicate 32 (0, 0, 0))))
   = Inr \<lparr>psnr = Num 999.99, ssim = Num 1, correlation = NaN, status = Tampered\<rparr>"
proof (rule verify_uniform_identical)
  show "set (flatten (replicate 32 (replicate 32 (0, 0, 0)))) \<subseteq> {real 0}"
    by (rule flatten_replicate)
  have "flatten (replicate (Suc h) (replicate (Suc w) (0, 0, 0))) \<noteq> []" for h w
    by (simp add: flatten_def)
  from this [of 31 31] show "flatten (replicate 32 (replicate 32 (0, 0, 0))) \<noteq> []"
    by simp
qed simp_all

text \<open>
  For an image with two different samples the same comparison gives a correlation of 1,
  so that the status depends on the SSIM alone.
\<close>

lemma cov_self_nonneg: "0 \<le> cov xs xs"
proof (cases "xs = []")
  case True
  then show ?thesis by (simp add: cov_def)
next
  case False
  then have "1 \<le> length xs" by (cases xs) auto
  then have "0 \<le> real (length xs) - 1" by simp
  moreover have "0 \<le> sum_list (map (\<lambda>x. (x - mean xs) * (x - mean xs)) xs)"
    by (rule sum_list_nonneg) auto
  ultimately show ?thesis by (simp add: cov_def map2_same)
qed

lemma corrcoef_self: "cov xs xs \<noteq> 0 \<Longrightarrow> corrcoef xs xs = Num 1"
proof -
  assume nz: "cov xs xs \<noteq> 0"
  with cov_self_nonneg [of xs] have pos: "0 < cov xs xs" by simp
  then have "cov xs xs / sqrt (cov xs xs) / sqrt (cov xs xs) = 1"
    by (simp add: divide_divide_eq_left)
  with nz show ?thesis by (simp add: corrcoef_def)
qed

lemma verify_identical_nonuniform:
  assumes "cov (flatten img) (flatten img) \<noteq> 0"
    and "resize_image img (ncols img, length img) = Some img"
    and "ssim_fn img img = Some s"
  shows "verify_watermarks resize_image ssim_fn (Some img) (Some img)
           = Inr \<lparr>psnr = Num 999.99, ssim = s, correlation = Num 1,
                  status = (if fge s 0.95 then Authentic else Tampered)\<rparr>"
proof -
  from assms(1) have ne: "flatten img \<noteq> []" by (auto simp: cov_def)
  show ?thesis
    using assms(2,3) squared_differences_same [OF ne] corrcoef_self [OF assms(1)]
    by (simp add: verify_watermarks_def Let_def same_shape_def)
qed

end
